theory Spec2Isabelle
  imports Complex_Main "HOL-Library.Sublist" "HOL-Library.Char_ord" "HOL-Library.List_Lexorder"
    "HOL-Library.Multiset"
begin

section \<open>Data model\<close>

text \<open>
  The dictionary \<^verbatim>\<open>event_data\<close> that \<^verbatim>\<open>_process_event\<close> builds and \<^verbatim>\<open>insert_event\<close>
  reads with \<^verbatim>\<open>data.get(key)\<close>. The six keys the watcher always sets are strings; the
  four nullable columns are options, \<open>None\<close> standing both for the Python value
  \<^verbatim>\<open>None\<close> and for an absent key (\<^verbatim>\<open>dict.get\<close> does not tell them apart).
\<close>

record event_data =
  event_type :: string
  file_path :: string
  timestamp :: string
  endpoint :: string
  hostname :: string
  username :: string
  hash_before :: "string option"
  hash_after :: "string option"
  state_hash :: "string option"
  content_hash :: "string option"

text \<open>A row of the \<^verbatim>\<open>events\<close> table: the ten data columns, the autoincrement
  \<^verbatim>\<open>id\<close> and the integer column \<^verbatim>\<open>synced_to_mongo\<close>.\<close>

record event_row = event_data +
  row_id :: int
  synced_to_mongo :: int

text \<open>The document \<^verbatim>\<open>mongo_event\<close> of \<^verbatim>\<open>insert_event\<close>, with the \<^verbatim>\<open>agent_id\<close> that
  \<^verbatim>\<open>send_event_to_mongo\<close> adds.\<close>

record mongo_doc =
  doc_timestamp :: string
  doc_event_type :: string
  doc_path :: string
  doc_state_hash :: "string option"
  doc_content_hash :: "string option"
  doc_hash_before :: "string option"
  doc_hash_after :: "string option"
  doc_endpoint :: string
  doc_hostname :: string
  doc_username :: string
  doc_agent_id :: "string option"

text \<open>A node of the file system: a directory, or a regular file whose bytes can be
  read (\<open>File (Some bytes)\<close>) or whose \<^verbatim>\<open>open\<close>/\<^verbatim>\<open>read\<close> raises \<^verbatim>\<open>OSError\<close>
  (\<open>File None\<close>, for instance a file without read permission).\<close>

datatype node = Dir | File "string option"

text \<open>What \<^verbatim>\<open>os.stat\<close> returns; the two times are floats in Python, reals here.\<close>

record stat_result =
  st_size :: int
  st_mtime :: real
  st_ctime :: real

text \<open>The calls the program makes to the outside (file system, local store, remote
  store, console), in the order it makes them.\<close>

datatype effect =
    FsIsFile string
  | FsHash string
  | DbSelect string
  | DbInsert int
  | DbUpdate int
  | MongoConnect
  | MongoInsertOne
  | Alert string string

text \<open>What does not change while the process runs: \<^verbatim>\<open>config.py\<close>, the fields of
  \<^verbatim>\<open>FIMEventHandler\<close>, and the library functions the code calls
  (\<^verbatim>\<open>os.path.abspath\<close>, \<^verbatim>\<open>hashlib.sha256(...).hexdigest()\<close>, the escaping of a string
  by \<^verbatim>\<open>json.dumps\<close>). \<open>tie\<close> is the order in
  which the SQL engine returns two rows that \<^verbatim>\<open>ORDER BY timestamp DESC\<close> does not
  separate: \<open>tie i j\<close> says that the row with id \<open>i\<close> comes before the row with id
  \<open>j\<close>. The query names no second sort key, so any \<open>tie\<close> is possible.\<close>

record sys =
  mongo_uri :: string
  agent_id :: string
  endpoint_name :: string
  gethostname :: string
  getuser :: string
  abspath :: "string \<Rightarrow> string"
  sha256_hexdigest :: "string \<Rightarrow> string"
  json_escape :: "string \<Rightarrow> string"
  tie :: "int \<Rightarrow> int \<Rightarrow> bool"

text \<open>What one call of \<^verbatim>\<open>_process_event\<close> observes: the clock
  (\<^verbatim>\<open>datetime.now().strftime("%Y-%m-%d %H:%M:%S")\<close>), the file system (its nodes, what
  \<^verbatim>\<open>os.stat\<close> returns, \<open>None\<close> when it raises, and \<^verbatim>\<open>os.access(path, os.W_OK)\<close>), and
  whether the handshake with the remote store and \<^verbatim>\<open>insert_one\<close> succeed.\<close>

record env =
  now :: string
  fs :: "string \<rightharpoonup> node"
  stat :: "string \<rightharpoonup> stat_result"
  access_w_ok :: "string \<Rightarrow> bool"
  connect_ok :: bool
  insert_one_ok :: bool

text \<open>The mutable state: the \<^verbatim>\<open>events\<close> table in rowid order, the autoincrement
  counter, the module globals \<^verbatim>\<open>_mongo_client\<close> and \<^verbatim>\<open>_mongo_collection\<close> (\<open>True\<close> for
  "is not None"), the documents the remote collection has accepted, and the calls made
  so far.\<close>

record world =
  events :: "event_row list"
  seq :: int
  mongo_client :: bool
  mongo_collection :: bool
  remote :: "mongo_doc list"
  trace :: "effect list"

definition init_world :: world where
  "init_world = \<lparr>events = [], seq = 0, mongo_client = False, mongo_collection = False,
     remote = [], trace = []\<rparr>"

definition log_effect :: "effect \<Rightarrow> world \<Rightarrow> world" where
  "log_effect x w = w\<lparr>trace := trace w @ [x]\<rparr>"

section \<open>watcher.py: the notification filter\<close>

text \<open>\<^verbatim>\<open>os.path.basename\<close> (POSIX): everything after the last slash.\<close>

definition basename :: "string \<Rightarrow> string" where
  "basename p = rev (takeWhile (\<lambda>c. c \<noteq> CHR ''/'') (rev p))"

definition endswith :: "string \<Rightarrow> string \<Rightarrow> bool" where
  "endswith s x = suffix x s"

definition startswith :: "string \<Rightarrow> string \<Rightarrow> bool" where
  "startswith s x = prefix x s"

definition is_temp_file :: "string \<Rightarrow> bool" where
  "is_temp_file path =
    (let filename = basename path in
     if endswith filename ''~'' then True
     else if startswith filename ''.'' then True
     else if endswith filename ''.swp'' \<or> endswith filename ''.swo'' then True
     else if endswith filename ''.pyc'' \<or> endswith filename ''.pyo'' then True
     else if sublist ''__pycache__'' path then True
     else False)"

section \<open>hashing.py\<close>

definition exists :: "(string \<rightharpoonup> node) \<Rightarrow> string \<Rightarrow> bool" where
  "exists f p = (f p \<noteq> None)"

definition isfile :: "(string \<rightharpoonup> node) \<Rightarrow> string \<Rightarrow> bool" where
  "isfile f p = (case f p of Some (File c) \<Rightarrow> True | _ \<Rightarrow> False)"

text \<open>\<^verbatim>\<open>compute_hash\<close>: \<open>None\<close> when the path is missing or not a regular file, and
  when reading raises; otherwise the digest of the bytes.\<close>

definition compute_hash :: "sys \<Rightarrow> (string \<rightharpoonup> node) \<Rightarrow> string \<Rightarrow> string option" where
  "compute_hash s f p =
    (if \<not> exists f p \<or> \<not> isfile f p then None
     else case f p of
            Some (File (Some bytes)) \<Rightarrow> Some (sha256_hexdigest s bytes)
          | _ \<Rightarrow> None)"

text \<open>The dictionary of \<^verbatim>\<open>get_file_metadata\<close>; the empty dictionary it returns when
  \<^verbatim>\<open>os.stat\<close> raises is \<open>None\<close>.\<close>

record metadata =
  meta_size :: int
  meta_mtime :: int
  meta_ctime :: int
  meta_readonly :: bool

text \<open>Python's \<^verbatim>\<open>int(x)\<close> on a float: truncation towards zero.\<close>

definition py_int :: "real \<Rightarrow> int" where
  "py_int x = (if 0 \<le> x then \<lfloor>x\<rfloor> else \<lceil>x\<rceil>)"

definition get_file_metadata :: "env \<Rightarrow> string \<Rightarrow> metadata option" where
  "get_file_metadata e p =
    (case stat e p of
       None \<Rightarrow> None
     | Some st \<Rightarrow>
         Some \<lparr>meta_size = st_size st, meta_mtime = py_int (st_mtime st),
               meta_ctime = py_int (st_ctime st), meta_readonly = (\<not> access_w_ok e p)\<rparr>)"

text \<open>The values \<^verbatim>\<open>json.dumps\<close> is given here: strings, integers, booleans and
  dictionaries (their items in insertion order, the keys distinct).\<close>

datatype json = JString string | JInt int | JBool bool | JObject "(string \<times> json) list"

fun dec :: "nat \<Rightarrow> string" where
  "dec n = (if n < 10 then [''0123456789'' ! n]
            else dec (n div 10) @ [''0123456789'' ! (n mod 10)])"

declare dec.simps [simp del]

definition py_str_int :: "int \<Rightarrow> string" where
  "py_str_int i = (if i < 0 then ''-'' @ dec (nat (- i)) else dec (nat i))"

definition dq :: char where
  "dq = CHR 0x22"

fun join :: "string \<Rightarrow> string list \<Rightarrow> string" where
  "join sep [] = []"
| "join sep [x] = x"
| "join sep (x # y # ys) = x @ sep @ join sep (y # ys)"

text \<open>\<^verbatim>\<open>json.dumps(obj, sort_keys=True, separators=(",", ":"))\<close>: the items of every
  dictionary sorted by key, no white space.\<close>

function dumps :: "(string \<Rightarrow> string) \<Rightarrow> json \<Rightarrow> string" where
  "dumps esc (JString x) = dq # esc x @ [dq]"
| "dumps esc (JInt i) = py_str_int i"
| "dumps esc (JBool b) = (if b then ''true'' else ''false'')"
| "dumps esc (JObject kvs) =
     ''{'' @ join '','' (map (\<lambda>kv. dq # esc (fst kv) @ [dq] @ '':'' @ dumps esc (snd kv))
                          (sort_key fst kvs)) @ ''}''"
  by pat_completeness auto
termination
proof (relation "measure (\<lambda>(esc, j). size j)")
  show "wf (measure (\<lambda>(esc, j). size j))" by simp
next
  fix esc :: "string \<Rightarrow> string" and kvs :: "(string \<times> json) list" and kv
  assume "kv \<in> set (sort_key fst kvs)"
  then have mem: "kv \<in> set kvs" by simp
  have "size (snd kv) \<le> size_prod (\<lambda>x. 0) size kv"
    by (cases kv) simp
  with mem have "size (snd kv) \<le> size_list (size_prod (\<lambda>x. 0) size) kvs"
    by (rule size_list_estimation')
  then show "((esc, snd kv), (esc, JObject kvs)) \<in> measure (\<lambda>(esc, j). size j)"
    by simp
qed

definition meta_json :: "metadata option \<Rightarrow> json" where
  "meta_json m =
    (case m of
       None \<Rightarrow> JObject []
     | Some x \<Rightarrow>
         JObject [(''size'', JInt (meta_size x)), (''mtime'', JInt (meta_mtime x)),
                  (''ctime'', JInt (meta_ctime x)), (''readonly'', JBool (meta_readonly x))])"

text \<open>The dictionary \<^verbatim>\<open>hash_state\<close> returns.\<close>

record file_state =
  fstate_path :: string
  fstate_content_hash :: string
  fstate_metadata :: "metadata option"
  fstate_state_hash :: string

definition state_obj :: "string \<Rightarrow> string \<Rightarrow> metadata option \<Rightarrow> json" where
  "state_obj p ch m =
     JObject [(''path'', JString p), (''content_hash'', JString ch), (''metadata'', meta_json m)]"

definition hash_state :: "sys \<Rightarrow> env \<Rightarrow> string \<Rightarrow> file_state option" where
  "hash_state s e p =
    (if \<not> exists (fs e) p \<or> \<not> isfile (fs e) p then None
     else
       (let meta = get_file_metadata e p in
        case compute_hash s (fs e) p of
          None \<Rightarrow> None
        | Some ch \<Rightarrow>
            (let state_bytes = dumps (json_escape s) (state_obj (abspath s p) ch meta) in
             Some \<lparr>fstate_path = abspath s p, fstate_content_hash = ch,
                    fstate_metadata = meta,
                    fstate_state_hash = sha256_hexdigest s state_bytes\<rparr>)))"

section \<open>models.py: the event log\<close>

text \<open>\<^verbatim>\<open>ORDER BY timestamp DESC LIMIT 1\<close> over rows given in rowid order: the row with the
  greatest timestamp (text comparison), and among equal timestamps the one the engine
  puts first.\<close>

fun order_by_timestamp_desc_limit_1 :: "(int \<Rightarrow> int \<Rightarrow> bool) \<Rightarrow> event_row list \<Rightarrow> event_row option" where
  "order_by_timestamp_desc_limit_1 t [] = None"
| "order_by_timestamp_desc_limit_1 t (r # rs) =
    (case order_by_timestamp_desc_limit_1 t rs of
       None \<Rightarrow> Some r
     | Some b \<Rightarrow>
         if timestamp b < timestamp r \<or> (timestamp r = timestamp b \<and> t (row_id r) (row_id b))
         then Some r else Some b)"

text \<open>The rows that \<^verbatim>\<open>WHERE file_path = ? AND hash_after IS NOT NULL\<close> keeps.\<close>

definition where_path_hashed :: "string \<Rightarrow> event_row list \<Rightarrow> event_row list" where
  "where_path_hashed p rows = filter (\<lambda>r. file_path r = p \<and> hash_after r \<noteq> None) rows"

text \<open>The query of \<^verbatim>\<open>get_latest_hash\<close>: \<^verbatim>\<open>result[0] if result else None\<close>.\<close>

definition latest_hash :: "(int \<Rightarrow> int \<Rightarrow> bool) \<Rightarrow> event_row list \<Rightarrow> string \<Rightarrow> string option" where
  "latest_hash t rows p =
    (case order_by_timestamp_desc_limit_1 t (where_path_hashed p rows) of
       None \<Rightarrow> None
     | Some r \<Rightarrow> hash_after r)"

definition get_latest_hash :: "sys \<Rightarrow> string \<Rightarrow> world \<Rightarrow> string option \<times> world" where
  "get_latest_hash s p w = (latest_hash (tie s) (events w) p, log_effect (DbSelect p) w)"

section \<open>mongo_client.py\<close>

text \<open>\<^verbatim>\<open>get_mongo_connection\<close> returns \<^verbatim>\<open>_mongo_collection\<close>; the model returns whether it
  is not \<^verbatim>\<open>None\<close>. Both \<^verbatim>\<open>except\<close> branches reset the two globals to \<^verbatim>\<open>None\<close>.\<close>

definition get_mongo_connection :: "sys \<Rightarrow> env \<Rightarrow> world \<Rightarrow> bool \<times> world" where
  "get_mongo_connection s e w =
    (if mongo_uri s = [] then (False, w)
     else if \<not> mongo_client w then
       (let w1 = log_effect MongoConnect w in
        if connect_ok e
        then (True, w1\<lparr>mongo_client := True, mongo_collection := True\<rparr>)
        else (False, w1\<lparr>mongo_client := False, mongo_collection := False\<rparr>))
     else (mongo_collection w, w))"

definition send_event_to_mongo :: "sys \<Rightarrow> env \<Rightarrow> mongo_doc \<Rightarrow> world \<Rightarrow> bool \<times> world" where
  "send_event_to_mongo s e doc w =
    (case get_mongo_connection s e w of
       (collection, w1) \<Rightarrow>
         if \<not> collection then (False, w1)
         else
           (let doc' = doc\<lparr>doc_agent_id := Some (agent_id s)\<rparr>;
                w2 = log_effect MongoInsertOne w1 in
            if insert_one_ok e then (True, w2\<lparr>remote := remote w2 @ [doc']\<rparr>)
            else (False, w2)))"

section \<open>models.py: appending an event\<close>

text \<open>Python's \<^verbatim>\<open>a or b\<close> on two values that are a string or \<^verbatim>\<open>None\<close>: \<^verbatim>\<open>a\<close> when it is a
  non-empty string, otherwise \<^verbatim>\<open>b\<close>.\<close>

definition py_or :: "string option \<Rightarrow> string option \<Rightarrow> string option" where
  "py_or a b = (case a of None \<Rightarrow> b | Some x \<Rightarrow> if x = [] then b else a)"

text \<open>The row that the \<^verbatim>\<open>INSERT\<close> statement writes: the ten values read from the
  dictionary, the new id, and \<^verbatim>\<open>synced_to_mongo = 0\<close>.\<close>

definition new_row :: "event_data \<Rightarrow> int \<Rightarrow> event_row" where
  "new_row d i =
    \<lparr>event_type = event_type d, file_path = file_path d, timestamp = timestamp d,
     endpoint = endpoint d, hostname = hostname d, username = username d,
     hash_before = hash_before d, hash_after = hash_after d,
     state_hash = state_hash d, content_hash = content_hash d,
     row_id = i, synced_to_mongo = 0\<rparr>"

definition mongo_event :: "event_data \<Rightarrow> mongo_doc" where
  "mongo_event d =
    \<lparr>doc_timestamp = timestamp d, doc_event_type = event_type d, doc_path = file_path d,
     doc_state_hash = state_hash d,
     doc_content_hash = py_or (content_hash d) (hash_after d),
     doc_hash_before = hash_before d, doc_hash_after = hash_after d,
     doc_endpoint = endpoint d, doc_hostname = hostname d, doc_username = username d,
     doc_agent_id = None\<rparr>"

text \<open>\<^verbatim>\<open>UPDATE events SET synced_to_mongo = 1 WHERE id = ?\<close>.\<close>

definition mark_synced :: "int \<Rightarrow> event_row list \<Rightarrow> event_row list" where
  "mark_synced i rows = map (\<lambda>r. if row_id r = i then r\<lparr>synced_to_mongo := 1\<rparr> else r) rows"

definition insert_event :: "sys \<Rightarrow> env \<Rightarrow> event_data \<Rightarrow> world \<Rightarrow> int \<times> world" where
  "insert_event s e d w =
    (let event_id = seq w + 1;
         w1 = log_effect (DbInsert event_id)
                (w\<lparr>events := events w @ [new_row d event_id], seq := event_id\<rparr>) in
     case send_event_to_mongo s e (mongo_event d) w1 of
       (sent, w2) \<Rightarrow>
         if sent
         then (event_id, log_effect (DbUpdate event_id)
                           (w2\<lparr>events := mark_synced event_id (events w2)\<rparr>))
         else (event_id, w2))"

section \<open>watcher.py: the classifier\<close>

text \<open>The dictionary \<^verbatim>\<open>event_data\<close> that \<^verbatim>\<open>_process_event\<close> builds; it has no
  \<^verbatim>\<open>state_hash\<close> and no \<^verbatim>\<open>content_hash\<close> key, so \<^verbatim>\<open>data.get\<close> yields \<^verbatim>\<open>None\<close> for both.\<close>

definition event_of :: "sys \<Rightarrow> env \<Rightarrow> string \<Rightarrow> string \<Rightarrow> string option \<Rightarrow> string option \<Rightarrow> event_data" where
  "event_of s e etype path hb ha =
    \<lparr>event_type = etype, file_path = path, timestamp = now e,
     endpoint = endpoint_name s, hostname = gethostname s, username = getuser s,
     hash_before = hb, hash_after = ha, state_hash = None, content_hash = None\<rparr>"

text \<open>The tail of \<^verbatim>\<open>_process_event\<close>: \<^verbatim>\<open>insert_event\<close>, then \<^verbatim>\<open>print_alert\<close>.\<close>

definition emit :: "sys \<Rightarrow> env \<Rightarrow> string \<Rightarrow> string \<Rightarrow> string option \<Rightarrow> string option \<Rightarrow> world \<Rightarrow> world" where
  "emit s e etype path hb ha w =
    log_effect (Alert etype path) (snd (insert_event s e (event_of s e etype path hb ha) w))"

definition process_event :: "sys \<Rightarrow> env \<Rightarrow> string \<Rightarrow> string \<Rightarrow> bool \<Rightarrow> world \<Rightarrow> world" where
  "process_event s e etype src_path is_directory w =
    (if is_directory then w
     else if is_temp_file src_path then w
     else
       (let path = abspath s src_path in
        if etype = ''created'' then
          (let w1 = log_effect (FsIsFile path) w in
           if \<not> isfile (fs e) path then w1
           else emit s e etype path None (compute_hash s (fs e) path)
                  (log_effect (FsHash path) w1))
        else if etype = ''modified'' then
          (let w1 = log_effect (FsIsFile path) w in
           if \<not> isfile (fs e) path then w1
           else
             (case get_latest_hash s path w1 of
                (hb, w2) \<Rightarrow>
                  (let ha = compute_hash s (fs e) path;
                       w3 = log_effect (FsHash path) w2 in
                   if hb = ha then w3 else emit s e etype path hb ha w3)))
        else if etype = ''deleted'' then
          (case get_latest_hash s path w of
             (hb, w1) \<Rightarrow> emit s e etype path hb None w1)
        else emit s e etype path None None w))"

text \<open>The watchdog event object.\<close>

record fs_event =
  src_path :: string
  dest_path :: string
  is_directory :: bool

definition on_created :: "sys \<Rightarrow> env \<Rightarrow> fs_event \<Rightarrow> world \<Rightarrow> world" where
  "on_created s e ev w = process_event s e ''created'' (src_path ev) (is_directory ev) w"

definition on_modified :: "sys \<Rightarrow> env \<Rightarrow> fs_event \<Rightarrow> world \<Rightarrow> world" where
  "on_modified s e ev w = process_event s e ''modified'' (src_path ev) (is_directory ev) w"

definition on_deleted :: "sys \<Rightarrow> env \<Rightarrow> fs_event \<Rightarrow> world \<Rightarrow> world" where
  "on_deleted s e ev w = process_event s e ''deleted'' (src_path ev) (is_directory ev) w"

text \<open>\<^verbatim>\<open>on_moved\<close> makes two calls of \<^verbatim>\<open>_process_event\<close>; each observes its own
  environment.\<close>

definition on_moved :: "sys \<Rightarrow> env \<Rightarrow> env \<Rightarrow> fs_event \<Rightarrow> world \<Rightarrow> world" where
  "on_moved s e1 e2 ev w =
    (if \<not> is_directory ev then
       (let w1 = (if \<not> is_temp_file (src_path ev)
                  then process_event s e1 ''deleted'' (src_path ev) False w else w) in
        if \<not> is_temp_file (dest_path ev)
        then process_event s e2 ''created'' (dest_path ev) False w1 else w1)
     else w)"

text \<open>The notifications the observer thread delivers, one after the other, each with
  what its handler observes.\<close>

datatype call =
    OnCreated env fs_event
  | OnModified env fs_event
  | OnDeleted env fs_event
  | OnMoved env env fs_event

fun handle :: "sys \<Rightarrow> call \<Rightarrow> world \<Rightarrow> world" where
  "handle s (OnCreated e ev) w = on_created s e ev w"
| "handle s (OnModified e ev) w = on_modified s e ev w"
| "handle s (OnDeleted e ev) w = on_deleted s e ev w"
| "handle s (OnMoved e1 e2 ev) w = on_moved s e1 e2 ev w"

definition run :: "sys \<Rightarrow> call list \<Rightarrow> world \<Rightarrow> world" where
  "run s cs w = foldl (\<lambda>w c. handle s c w) w cs"

section \<open>Reading the log\<close>

text \<open>The ten data columns of a row.\<close>

definition data_of :: "event_row \<Rightarrow> event_data" where
  "data_of r =
    \<lparr>event_type = event_type r, file_path = file_path r, timestamp = timestamp r,
     endpoint = endpoint r, hostname = hostname r, username = username r,
     hash_before = hash_before r, hash_after = hash_after r,
     state_hash = state_hash r, content_hash = content_hash r\<rparr>"

text \<open>The log without the sync flags: the id and the data columns of every row, in
  the order the rows were appended.\<close>

definition persisted :: "world \<Rightarrow> (int \<times> event_data) list" where
  "persisted w = map (\<lambda>r. (row_id r, data_of r)) (events w)"

text \<open>Whether the remote send of \<^verbatim>\<open>insert_event\<close> succeeds from a given state: a URI is
  configured, a collection is at hand (memoized, or the handshake succeeds now), and
  \<^verbatim>\<open>insert_one\<close> does not raise.\<close>

definition send_succeeds :: "sys \<Rightarrow> env \<Rightarrow> world \<Rightarrow> bool" where
  "send_succeeds s e w =
    (mongo_uri s \<noteq> [] \<and> (if mongo_client w then mongo_collection w else connect_ok e)
     \<and> insert_one_ok e)"

text \<open>What holds of every row of a log written by the watcher, given the rows before
  it: a created row has no \<^verbatim>\<open>hash_before\<close>, a deleted row no \<^verbatim>\<open>hash_after\<close>, a
  modified row two different hashes, and the \<^verbatim>\<open>hash_before\<close> of a modified or deleted
  row is what \<^verbatim>\<open>get_latest_hash\<close> returned on the rows before it.\<close>

definition row_ok :: "(int \<Rightarrow> int \<Rightarrow> bool) \<Rightarrow> event_row list \<Rightarrow> event_row \<Rightarrow> bool" where
  "row_ok t before r =
    ((event_type r = ''created'' \<longrightarrow> hash_before r = None) \<and>
     (event_type r = ''deleted'' \<longrightarrow> hash_after r = None) \<and>
     (event_type r = ''modified'' \<longrightarrow> hash_before r \<noteq> hash_after r) \<and>
     (event_type r \<noteq> ''created'' \<longrightarrow> hash_before r = latest_hash t before (file_path r)))"

definition log_ok :: "(int \<Rightarrow> int \<Rightarrow> bool) \<Rightarrow> event_row list \<Rightarrow> bool" where
  "log_ok t rows = (\<forall>i < length rows. row_ok t (take i rows) (rows ! i))"

text \<open>Every id in the table is at most the autoincrement counter, so the next id is
  new.\<close>

definition ids_fresh :: "world \<Rightarrow> bool" where
  "ids_fresh w = (\<forall>r \<in> set (events w). row_id r \<le> seq w)"

text \<open>No row carries a \<^verbatim>\<open>state_hash\<close> or a \<^verbatim>\<open>content_hash\<close>.\<close>

definition no_state_columns :: "event_row list \<Rightarrow> bool" where
  "no_state_columns rows = (\<forall>r \<in> set rows. state_hash r = None \<and> content_hash r = None)"

section \<open>The specification's words\<close>

text \<open>The specification's \<^verbatim>\<open>latest_hash_after\<close>: the most recent record for the path,
  ordered by timestamp, ties broken by id descending; its \<^verbatim>\<open>hash_after\<close>.\<close>

definition spec_newer :: "event_row \<Rightarrow> event_row \<Rightarrow> bool" where
  "spec_newer a b =
    (timestamp b < timestamp a \<or> (timestamp a = timestamp b \<and> row_id b < row_id a))"



text \<open>The specification's invariants of the event log: the chronologically ordered
  events of one path (by timestamp, then id), each \<^verbatim>\<open>hash_after\<close> equal to the next
  \<^verbatim>\<open>hash_before\<close>, and no two consecutive events that both change nothing.\<close>

fun spec_insert :: "event_row \<Rightarrow> event_row list \<Rightarrow> event_row list" where
  "spec_insert r [] = [r]"
| "spec_insert r (x # xs) = (if spec_newer x r then r # x # xs else x # spec_insert r xs)"

definition spec_history :: "event_row list \<Rightarrow> string \<Rightarrow> event_row list" where
  "spec_history rows p = foldr spec_insert (filter (\<lambda>r. file_path r = p) rows) []"

fun spec_chained :: "event_row list \<Rightarrow> bool" where
  "spec_chained (a # b # rs) = (hash_after a = hash_before b \<and> spec_chained (b # rs))"
| "spec_chained rs = True"

definition no_change :: "event_row \<Rightarrow> bool" where
  "no_change r = (hash_before r = hash_after r)"

fun spec_no_repeated_no_change :: "event_row list \<Rightarrow> bool" where
  "spec_no_repeated_no_change (a # b # rs) =
     (\<not> (no_change a \<and> no_change b) \<and> spec_no_repeated_no_change (b # rs))"
| "spec_no_repeated_no_change rs = True"

definition spec_event_invariant :: "event_row list \<Rightarrow> bool" where
  "spec_event_invariant rows =
    ((\<forall>r \<in> set rows. (event_type r = ''created'' \<longrightarrow> hash_before r = None) \<and>
                       (event_type r = ''deleted'' \<longrightarrow> hash_after r = None)) \<and>
     (\<forall>r \<in> set rows. spec_chained (spec_history rows (file_path r)) \<and>
                       spec_no_repeated_no_change (spec_history rows (file_path r))))"

text \<open>The specification's filter: the filename is the last component of the path, and
  the cache-directory marker is a component of the path.\<close>

fun components :: "string \<Rightarrow> string list" where
  "components [] = [[]]"
| "components (c # cs) =
    (if c = CHR ''/'' then [] # components cs
     else case components cs of
            [] \<Rightarrow> [[c]]
          | x # xs \<Rightarrow> (c # x) # xs)"

definition spec_filtered :: "string \<Rightarrow> bool" where
  "spec_filtered p =
    (let filename = last (components p) in
     suffix ''~'' filename \<or> prefix ''.'' filename \<or>
     suffix ''.swp'' filename \<or> suffix ''.swo'' filename \<or>
     suffix ''.pyc'' filename \<or> suffix ''.pyo'' filename \<or>
     ''__pycache__'' \<in> set (components p))"

section \<open>Concrete inputs\<close>

text \<open>A stand-in for the digest, injective, so that the model runs on concrete inputs;
  every general theorem below holds for any digest function.\<close>

definition example_digest :: "string \<Rightarrow> string" where
  "example_digest bytes = ''sha256:'' @ bytes"

text \<open>A configuration without a remote store, and one with a remote URI.\<close>

definition local_sys :: sys where
  "local_sys =
    \<lparr>mongo_uri = [], agent_id = ''agent-1'', endpoint_name = ''replit_agent'',
     gethostname = ''host'', getuser = ''user'', abspath = (\<lambda>p. p),
     sha256_hexdigest = example_digest, json_escape = (\<lambda>x. x),
     tie = (\<lambda>i j. j < i)\<rparr>"

definition remote_sys :: sys where
  "remote_sys = local_sys\<lparr>mongo_uri := ''mongodb://fim.example''\<rparr>"

text \<open>An environment with a given clock reading and file system; every node has a
  status, every file is writable, and the remote store is down.\<close>

definition stat_of :: "(string \<rightharpoonup> node) \<Rightarrow> (string \<rightharpoonup> stat_result)" where
  "stat_of f p =
    (case f p of
       None \<Rightarrow> None
     | Some Dir \<Rightarrow> Some \<lparr>st_size = 4096, st_mtime = 1704103200.25, st_ctime = 1704103200.25\<rparr>
     | Some (File None) \<Rightarrow> Some \<lparr>st_size = 0, st_mtime = 1704103200.25, st_ctime = 1704103200.25\<rparr>
     | Some (File (Some bytes)) \<Rightarrow>
         Some \<lparr>st_size = int (length bytes), st_mtime = 1704103200.25,
               st_ctime = 1704103200.25\<rparr>)"

definition env_at :: "string \<Rightarrow> (string \<rightharpoonup> node) \<Rightarrow> env" where
  "env_at t f =
    \<lparr>now = t, fs = f, stat = stat_of f, access_w_ok = (\<lambda>p. True),
     connect_ok = False, insert_one_ok = False\<rparr>"

definition no_files :: "string \<rightharpoonup> node" where
  "no_files = (\<lambda>p. None)"

definition one_file :: "string \<Rightarrow> node \<Rightarrow> (string \<rightharpoonup> node)" where
  "one_file p n = (\<lambda>q. if q = p then Some n else None)"

definition file_event :: "string \<Rightarrow> fs_event" where
  "file_event p = \<lparr>src_path = p, dest_path = [], is_directory = False\<rparr>"

definition a_txt :: string where
  "a_txt = ''/w/a.txt''"

definition clock1 :: string where
  "clock1 = ''2024-01-01 10:00:00''"

definition clock2 :: string where
  "clock2 = ''2024-01-01 10:00:05''"

definition clock3 :: string where
  "clock3 = ''2024-01-01 10:00:09''"

definition hello_env :: env where
  "hello_env = env_at clock1 (one_file a_txt (File (Some ''hello'')))"

definition world_env :: env where
  "world_env = env_at clock2 (one_file a_txt (File (Some ''world'')))"

definition gone_env :: env where
  "gone_env = env_at clock2 no_files"

definition unreadable_env :: env where
  "unreadable_env = env_at clock1 (one_file a_txt (File None))"

text \<open>\<^verbatim>\<open>a.txt\<close> is created with the bytes \<^verbatim>\<open>hello\<close>.\<close>

definition created_hello :: world where
  "created_hello = on_created local_sys hello_env (file_event a_txt) init_world"


text \<open>... or then created again with the bytes \<^verbatim>\<open>world\<close> (a second create
  notification for the same path, as after a deletion the watcher did not see).\<close>

definition created_twice :: world where
  "created_twice = on_created local_sys world_env (file_event a_txt) created_hello"

text \<open>A create notification for a regular file that cannot be read.\<close>

definition created_unreadable :: world where
  "created_unreadable = on_created local_sys unreadable_env (file_event a_txt) init_world"

text \<open>A modify notification for \<^verbatim>\<open>a.txt\<close>, known to the log, when it can no longer be
  read.\<close>

definition unreadable_later_env :: env where
  "unreadable_later_env = env_at clock2 (one_file a_txt (File None))"

definition modified_unreadable :: world where
  "modified_unreadable =
     on_modified local_sys unreadable_later_env (file_event a_txt) created_hello"

text \<open>A notification while the remote store is up, and two later ones.\<close>

definition up_env :: env where
  "up_env = hello_env\<lparr>connect_ok := True, insert_one_ok := True\<rparr>"

definition connected :: world where
  "connected = on_created remote_sys up_env (file_event a_txt) init_world"

definition later_calls :: "call list" where
  "later_calls = [OnModified world_env (file_event a_txt), OnDeleted gone_env (file_event a_txt)]"

text \<open>The same file seen in another run: another clock reading, the remote store up.\<close>

definition other_run_env :: env where
  "other_run_env = hello_env\<lparr>now := clock3, connect_ok := True\<rparr>"

text \<open>Notifications for noise paths.\<close>

definition draft_event :: fs_event where
  "draft_event = file_event ''/w/draft.txt~''"

definition hidden_to_pyc :: fs_event where
  "hidden_to_pyc =
     \<lparr>src_path = ''/w/.hidden'', dest_path = ''/w/module.pyc'', is_directory = False\<rparr>"

text \<open>The notifications behind \<open>created_then_deleted\<close>, and two delete notifications for
  a path the log does not know.\<close>

definition create_delete_calls :: "call list" where
  "create_delete_calls =
     [OnCreated hello_env (file_event a_txt), OnDeleted gone_env (file_event a_txt)]"

definition deleted_twice :: world where
  "deleted_twice =
     run local_sys [OnDeleted gone_env (file_event a_txt),
                    OnDeleted (env_at clock3 no_files) (file_event a_txt)] init_world"





text \<open>Two notifications with a remote URI configured and the remote store down.\<close>

definition two_events_remote_down :: world where
  "two_events_remote_down =
     run remote_sys [OnCreated hello_env (file_event a_txt),
                     OnModified world_env (file_event a_txt)] init_world"

section \<open>Facts about the store and the remote send\<close>

lemma trace_log_effect [simp]: "trace (log_effect x w) = trace w @ [x]"
  by (simp add: log_effect_def)

lemma events_log_effect [simp]: "events (log_effect x w) = events w"
  by (simp add: log_effect_def)

lemma seq_log_effect [simp]: "seq (log_effect x w) = seq w"
  by (simp add: log_effect_def)

lemma mongo_client_log_effect [simp]: "mongo_client (log_effect x w) = mongo_client w"
  by (simp add: log_effect_def)

lemma mongo_collection_log_effect [simp]: "mongo_collection (log_effect x w) = mongo_collection w"
  by (simp add: log_effect_def)

lemma remote_log_effect [simp]: "remote (log_effect x w) = remote w"
  by (simp add: log_effect_def)

lemma fst_get_mongo_connection:
  "fst (get_mongo_connection s e w) =
     (mongo_uri s \<noteq> [] \<and> (if mongo_client w then mongo_collection w else connect_ok e))"
  by (simp add: get_mongo_connection_def Let_def)

lemma events_get_mongo_connection [simp]:
  "events (snd (get_mongo_connection s e w)) = events w"
  by (simp add: get_mongo_connection_def Let_def)

lemma seq_get_mongo_connection [simp]:
  "seq (snd (get_mongo_connection s e w)) = seq w"
  by (simp add: get_mongo_connection_def Let_def)

lemma fst_send_event_to_mongo:
  "fst (send_event_to_mongo s e doc w) = send_succeeds s e w"
  using fst_get_mongo_connection [of s e w]
  by (auto simp: send_event_to_mongo_def send_succeeds_def Let_def split: prod.splits)

lemma events_send_event_to_mongo [simp]:
  "events (snd (send_event_to_mongo s e doc w)) = events w"
proof -
  obtain c w1 where g: "get_mongo_connection s e w = (c, w1)"
    by (cases "get_mongo_connection s e w")
  have "events w1 = events w"
    using events_get_mongo_connection [of s e w] g by simp
  then show ?thesis
    by (simp add: send_event_to_mongo_def g Let_def)
qed

lemma seq_send_event_to_mongo [simp]:
  "seq (snd (send_event_to_mongo s e doc w)) = seq w"
proof -
  obtain c w1 where g: "get_mongo_connection s e w = (c, w1)"
    by (cases "get_mongo_connection s e w")
  have "seq w1 = seq w"
    using seq_get_mongo_connection [of s e w] g by simp
  then show ?thesis
    by (simp add: send_event_to_mongo_def g Let_def)
qed

lemma send_succeeds_log_effect [simp]:
  "send_succeeds s e (log_effect x w) = send_succeeds s e w"
  by (simp add: send_succeeds_def)

lemma send_succeeds_cong:
  "mongo_client w' = mongo_client w \<Longrightarrow> mongo_collection w' = mongo_collection w \<Longrightarrow>
   send_succeeds s e w' = send_succeeds s e w"
  by (simp add: send_succeeds_def)

lemma fst_insert_event: "fst (insert_event s e d w) = seq w + 1"
  by (simp add: insert_event_def Let_def split: prod.splits)

lemma seq_insert_event: "seq (snd (insert_event s e d w)) = seq w + 1"
proof -
  define w1 where "w1 = log_effect (DbInsert (seq w + 1))
                (w\<lparr>events := events w @ [new_row d (seq w + 1)], seq := seq w + 1\<rparr>)"
  obtain b w2 where g: "send_event_to_mongo s e (mongo_event d) w1 = (b, w2)"
    by (cases "send_event_to_mongo s e (mongo_event d) w1")
  have "seq w2 = seq w1" using seq_send_event_to_mongo [of s e "mongo_event d" w1] g by simp
  then show ?thesis
    using g by (simp add: insert_event_def Let_def w1_def [symmetric]) (simp add: w1_def)
qed

lemma events_insert_event:
  "events (snd (insert_event s e d w)) =
     (if send_succeeds s e w
      then mark_synced (seq w + 1) (events w @ [new_row d (seq w + 1)])
      else events w @ [new_row d (seq w + 1)])"
proof -
  define w1 where "w1 = log_effect (DbInsert (seq w + 1))
                (w\<lparr>events := events w @ [new_row d (seq w + 1)], seq := seq w + 1\<rparr>)"
  obtain b w2 where g: "send_event_to_mongo s e (mongo_event d) w1 = (b, w2)"
    by (cases "send_event_to_mongo s e (mongo_event d) w1")
  have ev: "events w2 = events w1"
    using events_send_event_to_mongo [of s e "mongo_event d" w1] g by simp
  have b: "b = send_succeeds s e w1"
    using fst_send_event_to_mongo [of s e "mongo_event d" w1] g by simp
  have "send_succeeds s e w1 = send_succeeds s e w"
    by (simp add: w1_def send_succeeds_def)
  with b have b': "b = send_succeeds s e w" by simp
  have e1: "events w1 = events w @ [new_row d (seq w + 1)]" by (simp add: w1_def)
  show ?thesis
    using g ev e1 b' by (simp add: insert_event_def Let_def w1_def [symmetric])
qed

lemma data_of_new_row [simp]: "data_of (new_row d i) = d"
  by (simp add: data_of_def new_row_def)

lemma row_id_new_row [simp]: "row_id (new_row d i) = i"
  by (simp add: new_row_def)

lemma synced_new_row [simp]: "synced_to_mongo (new_row d i) = 0"
  by (simp add: new_row_def)

lemma file_path_new_row [simp]: "file_path (new_row d i) = file_path d"
  by (simp add: new_row_def)

lemma timestamp_new_row [simp]: "timestamp (new_row d i) = timestamp d"
  by (simp add: new_row_def)

lemma hash_after_new_row [simp]: "hash_after (new_row d i) = hash_after d"
  by (simp add: new_row_def)

lemma hash_before_new_row [simp]: "hash_before (new_row d i) = hash_before d"
  by (simp add: new_row_def)

lemma event_type_new_row [simp]: "event_type (new_row d i) = event_type d"
  by (simp add: new_row_def)

lemma state_hash_new_row [simp]: "state_hash (new_row d i) = state_hash d"
  by (simp add: new_row_def)

lemma content_hash_new_row [simp]: "content_hash (new_row d i) = content_hash d"
  by (simp add: new_row_def)

lemma length_mark_synced [simp]: "length (mark_synced i rows) = length rows"
  by (simp add: mark_synced_def)

lemma mark_synced_append: "mark_synced i (xs @ ys) = mark_synced i xs @ mark_synced i ys"
  by (simp add: mark_synced_def)

lemma map_id_data_mark_synced:
  "map (\<lambda>r. (row_id r, data_of r)) (mark_synced i rows) = map (\<lambda>r. (row_id r, data_of r)) rows"
  by (induction rows) (simp_all add: mark_synced_def data_of_def)

lemma where_path_hashed_mark_synced:
  "where_path_hashed p (mark_synced i rows) = mark_synced i (where_path_hashed p rows)"
  by (induction rows) (simp_all add: mark_synced_def where_path_hashed_def)

lemma order_by_mark_synced:
  "order_by_timestamp_desc_limit_1 t (mark_synced i rows) =
     map_option (\<lambda>r. if row_id r = i then r\<lparr>synced_to_mongo := 1\<rparr> else r)
       (order_by_timestamp_desc_limit_1 t rows)"
proof (induction rows)
  case Nil
  show ?case by (simp add: mark_synced_def)
next
  case (Cons r rows)
  have step: "mark_synced i (r # rows) =
      (if row_id r = i then r\<lparr>synced_to_mongo := 1\<rparr> else r) # mark_synced i rows"
    by (simp add: mark_synced_def)
  show ?case
    unfolding step using Cons.IH
    by (cases "order_by_timestamp_desc_limit_1 t rows") auto
qed

lemma latest_hash_mark_synced [simp]:
  "latest_hash t (mark_synced i rows) p = latest_hash t rows p"
  unfolding latest_hash_def where_path_hashed_mark_synced order_by_mark_synced
  by (cases "order_by_timestamp_desc_limit_1 t (where_path_hashed p rows)") auto

lemma persisted_insert_event:
  "persisted (snd (insert_event s e d w)) = persisted w @ [(seq w + 1, d)]"
  by (simp add: persisted_def events_insert_event map_id_data_mark_synced)

lemma last_mark_synced_new_row:
  "synced_to_mongo (last (mark_synced i (rows @ [new_row d i]))) = 1"
  by (simp add: mark_synced_def)


section \<open>Facts about the classifier and the latest-hash query\<close>

lemma persisted_log_effect [simp]: "persisted (log_effect x w) = persisted w"
  by (simp add: persisted_def)

lemma persisted_emit:
  "persisted (emit s e etype path hb ha w) = persisted w @ [(seq w + 1, event_of s e etype path hb ha)]"
  by (simp add: emit_def persisted_insert_event)

lemma seq_emit: "seq (emit s e etype path hb ha w) = seq w + 1"
  by (simp add: emit_def seq_insert_event)

lemma events_emit:
  "events (emit s e etype path hb ha w) =
     (if send_succeeds s e w
      then mark_synced (seq w + 1) (events w @ [new_row (event_of s e etype path hb ha) (seq w + 1)])
      else events w @ [new_row (event_of s e etype path hb ha) (seq w + 1)])"
  by (simp add: emit_def events_insert_event)








section \<open>Local durability under remote failure\<close>

text \<open>
  C7. Whatever the remote store does, \<^verbatim>\<open>insert_event\<close> returns the new id and the log
  is the old log followed by the new event with all its columns. When the send fails
  (no URI, no connection, or \<^verbatim>\<open>insert_one\<close> raises) the table is exactly the old rows
  followed by the new row with \<^verbatim>\<open>synced_to_mongo = 0\<close>; the new row's flag is 1 exactly
  when the send succeeded; and \<^verbatim>\<open>get_latest_hash\<close> reads the same value from the table
  whether or not the send succeeded.
\<close>

theorem insert_event_survives_remote_failure:
  "fst (insert_event s e d w) = seq w + 1 \<and>
   persisted (snd (insert_event s e d w)) = persisted w @ [(seq w + 1, d)] \<and>
   (\<not> send_succeeds s e w \<longrightarrow>
      events (snd (insert_event s e d w)) = events w @ [new_row d (seq w + 1)] \<and>
      synced_to_mongo (last (events (snd (insert_event s e d w)))) = 0) \<and>
   (synced_to_mongo (last (events (snd (insert_event s e d w)))) = 1 \<longleftrightarrow> send_succeeds s e w) \<and>
   latest_hash t (events (snd (insert_event s e d w))) p =
     latest_hash t (events w @ [new_row d (seq w + 1)]) p"
  by (simp add: fst_insert_event persisted_insert_event events_insert_event
      last_mark_synced_new_row)

theorem insert_event_survives_remote_failure_witness:
  "\<not> send_succeeds remote_sys hello_env init_world \<and>
   fst (insert_event remote_sys hello_env
          (event_of remote_sys hello_env ''created'' a_txt None (Some ''abc'')) init_world) = 1 \<and>
   events (snd (insert_event remote_sys hello_env
          (event_of remote_sys hello_env ''created'' a_txt None (Some ''abc'')) init_world)) =
     [new_row (event_of remote_sys hello_env ''created'' a_txt None (Some ''abc'')) 1] \<and>
   synced_to_mongo (new_row (event_of remote_sys hello_env ''created'' a_txt None (Some ''abc'')) 1) = 0"
proof -
  have down: "\<not> send_succeeds remote_sys hello_env init_world" by code_simp
  have start: "seq init_world = 0" "events init_world = []" by code_simp+
  show ?thesis
    using insert_event_survives_remote_failure [of remote_sys hello_env
        "event_of remote_sys hello_env ''created'' a_txt None (Some ''abc'')" init_world]
      down start
    by simp
qed

section \<open>Suppression of unchanged modifications\<close>





section \<open>The latest hash of a path\<close>




section \<open>The first modification of an unknown path\<close>



lemma compute_hash_unreadable:
  "f p = Some (File None) \<Longrightarrow> compute_hash s f p = None"
  by (simp add: compute_hash_def)

section \<open>A failed fingerprint\<close>

text \<open>
  C3. The claim asks that a create or modify notification whose hash computation fails
  appends nothing. \<^verbatim>\<open>_process_event\<close> does not test the result of \<^verbatim>\<open>compute_hash\<close>: for a
  regular file that cannot be read, \<^verbatim>\<open>os.path.isfile\<close> holds, \<^verbatim>\<open>compute_hash\<close> returns
  \<^verbatim>\<open>None\<close> (lemma \<open>compute_hash_unreadable\<close>), and a created event with a null \<^verbatim>\<open>hash_after\<close> is appended; a modify
  notification for a path whose latest hash is not null appends a modified event with a
  null \<^verbatim>\<open>hash_after\<close>.
\<close>

theorem unreadable_file_is_recorded:
  "fs unreadable_env a_txt = Some (File None) \<and>
   isfile (fs unreadable_env) a_txt \<and>
   persisted created_unreadable =
     [(1, event_of local_sys unreadable_env ''created'' a_txt None None)] \<and>
   fs unreadable_later_env a_txt = Some (File None) \<and>
   persisted modified_unreadable =
     persisted created_hello @
       [(2, event_of local_sys unreadable_later_env ''modified'' a_txt
              (Some (example_digest ''hello'')) None)]"
  by code_simp

section \<open>The notification filter\<close>

lemma components_not_Nil [simp]: "components p \<noteq> []"
  by (induction p) (auto split: list.splits)

lemma components_no_slash: "CHR ''/'' \<notin> set p \<Longrightarrow> components p = [p]"
  by (induction p) auto

lemma components_single: "components p = [x] \<Longrightarrow> CHR ''/'' \<notin> set p"
  by (induction p arbitrary: x) (auto split: if_splits list.splits)

lemma basename_Cons:
  "basename (c # cs) =
     (if CHR ''/'' \<in> set cs then basename cs
      else if c = CHR ''/'' then cs else c # cs)"
proof (cases "CHR ''/'' \<in> set cs")
  case True
  then have "takeWhile (\<lambda>c. c \<noteq> CHR ''/'') (rev cs @ [c]) = takeWhile (\<lambda>c. c \<noteq> CHR ''/'') (rev cs)"
    by (intro takeWhile_append1 [where x = "CHR ''/''"]) auto
  with True show ?thesis by (simp add: basename_def)
next
  case False
  then have "takeWhile (\<lambda>c. c \<noteq> CHR ''/'') (rev cs @ [c]) = rev cs @ takeWhile (\<lambda>c. c \<noteq> CHR ''/'') [c]"
    by (intro takeWhile_append2) auto
  moreover from False have "takeWhile (\<lambda>c. c \<noteq> CHR ''/'') (rev cs) = rev cs"
    by (intro takeWhile_eq_all_conv [THEN iffD2]) auto
  ultimately show ?thesis using False by (simp add: basename_def)
qed

lemma last_components: "last (components p) = basename p"
proof (induction p)
  case Nil
  show ?case by (simp add: basename_def)
next
  case (Cons c cs)
  show ?case
  proof (cases "CHR ''/'' \<in> set cs")
    case True
    then have two: "\<And>x. components cs \<noteq> [x]" using components_single by blast
    obtain y ys where c: "components cs = y # ys" by (cases "components cs") auto
    with two have "ys \<noteq> []" by auto
    with c Cons.IH True show ?thesis by (simp add: basename_Cons)
  next
    case False
    then show ?thesis by (simp add: basename_Cons components_no_slash)
  qed
qed

lemma hd_components_prefix: "components p = y # ys \<Longrightarrow> prefix y p"
  by (induction p arbitrary: y ys) (auto split: if_splits list.splits)

lemma component_sublist: "x \<in> set (components p) \<Longrightarrow> sublist x p"
proof (induction p arbitrary: x)
  case Nil
  then show ?case by simp
next
  case (Cons c cs)
  show ?case
  proof (cases "c = CHR ''/''")
    case True
    with Cons.prems have "x = [] \<or> x \<in> set (components cs)" by simp
    then show ?thesis using Cons.IH by (auto simp: sublist_Cons_right)
  next
    case False
    obtain y ys where c: "components cs = y # ys" by (cases "components cs") auto
    with False Cons.prems have "x = c # y \<or> x \<in> set ys" by simp
    then show ?thesis
    proof
      assume "x = c # y"
      moreover have "prefix y cs" using c by (rule hd_components_prefix)
      ultimately show ?thesis by (simp add: sublist_Cons_right)
    next
      assume "x \<in> set ys"
      then have "sublist x cs" using Cons.IH c by simp
      then show ?thesis by (simp add: sublist_Cons_right)
    qed
  qed
qed

lemma spec_filtered_is_temp_file: "spec_filtered p \<Longrightarrow> is_temp_file p"
  using component_sublist [of "''__pycache__''" p]
  by (auto simp: spec_filtered_def is_temp_file_def last_components Let_def
      endswith_def startswith_def)

lemma process_event_filtered:
  "d \<or> is_temp_file p \<Longrightarrow> process_event s e k p d w = w"
  by (auto simp: process_event_def)

text \<open>
  C8. A notification for a directory, or for a path the specification's filter rejects
  (filename ending in \<^verbatim>\<open>~\<close>, starting with a dot, ending in \<^verbatim>\<open>.swp\<close>, \<^verbatim>\<open>.swo\<close>, \<^verbatim>\<open>.pyc\<close> or
  \<^verbatim>\<open>.pyo\<close>, or a path with a \<^verbatim>\<open>__pycache__\<close> component), leaves the whole state as it
  was: no row, and no call to the file system, the store or the remote store. For a move,
  a directory or two rejected paths do nothing, and a rejected side contributes nothing:
  the move is then the classification of the other side alone.
\<close>

theorem filtered_notification_does_nothing:
  "(is_directory ev \<or> spec_filtered (src_path ev) \<longrightarrow>
      on_created s e ev w = w \<and> on_modified s e ev w = w \<and> on_deleted s e ev w = w) \<and>
   (is_directory ev \<or> (spec_filtered (src_path ev) \<and> spec_filtered (dest_path ev)) \<longrightarrow>
      on_moved s e1 e2 ev w = w) \<and>
   (spec_filtered (src_path ev) \<longrightarrow>
      on_moved s e1 e2 ev w = process_event s e2 ''created'' (dest_path ev) (is_directory ev) w) \<and>
   (spec_filtered (dest_path ev) \<longrightarrow>
      on_moved s e1 e2 ev w = process_event s e1 ''deleted'' (src_path ev) (is_directory ev) w)"
proof -
  have a: "is_directory ev \<or> spec_filtered (src_path ev) \<Longrightarrow>
      process_event s e k (src_path ev) (is_directory ev) w = w" for k
    using spec_filtered_is_temp_file [of "src_path ev"] by (auto simp: process_event_filtered)
  have b: "is_temp_file p \<Longrightarrow> process_event s e' k p False w' = w'" for p e' k w'
    by (simp add: process_event_filtered)
  have c: "process_event s e' k p True w' = w'" for p e' k w'
    by (simp add: process_event_filtered)
  show ?thesis
    using a spec_filtered_is_temp_file [of "src_path ev"] spec_filtered_is_temp_file [of "dest_path ev"]
    by (auto simp: on_created_def on_modified_def on_deleted_def on_moved_def Let_def b c)
qed

theorem filtered_notification_does_nothing_witness:
  "spec_filtered (src_path draft_event) \<and>
   on_created local_sys hello_env draft_event created_hello = created_hello \<and>
   on_modified local_sys hello_env draft_event created_hello = created_hello \<and>
   on_deleted local_sys hello_env draft_event created_hello = created_hello \<and>
   spec_filtered (src_path hidden_to_pyc) \<and> spec_filtered (dest_path hidden_to_pyc) \<and>
   on_moved local_sys gone_env hello_env hidden_to_pyc created_hello = created_hello"
proof -
  have a: "spec_filtered (src_path draft_event)" by code_simp
  have b: "spec_filtered (src_path hidden_to_pyc)" "spec_filtered (dest_path hidden_to_pyc)"
    by code_simp+
  show ?thesis
    using filtered_notification_does_nothing
        [of draft_event local_sys hello_env created_hello gone_env hello_env]
      filtered_notification_does_nothing
        [of hidden_to_pyc local_sys hello_env created_hello gone_env hello_env]
      a b
    by simp
qed

section \<open>The remote connection\<close>

lemma get_mongo_connection_memo:
  "mongo_client w \<Longrightarrow> mongo_uri s \<noteq> [] \<Longrightarrow> get_mongo_connection s e w = (mongo_collection w, w)"
  by (simp add: get_mongo_connection_def)

lemma get_mongo_connection_keeps_client:
  "mongo_client w \<Longrightarrow> mongo_client (snd (get_mongo_connection s e w)) \<and>
     trace (snd (get_mongo_connection s e w)) = trace w"
  by (simp add: get_mongo_connection_def)

lemma send_keeps_client:
  assumes "mongo_client w"
  shows "mongo_client (snd (send_event_to_mongo s e doc w)) \<and>
     count_list (trace (snd (send_event_to_mongo s e doc w))) MongoConnect =
       count_list (trace w) MongoConnect"
proof -
  obtain c w1 where g: "get_mongo_connection s e w = (c, w1)"
    by (cases "get_mongo_connection s e w")
  with get_mongo_connection_keeps_client [OF assms, of s e]
  have "mongo_client w1" "trace w1 = trace w" by simp_all
  then show ?thesis
    by (simp add: send_event_to_mongo_def g Let_def)
qed

lemma insert_event_keeps_client:
  assumes "mongo_client w"
  shows "mongo_client (snd (insert_event s e d w)) \<and>
     count_list (trace (snd (insert_event s e d w))) MongoConnect =
       count_list (trace w) MongoConnect"
proof -
  define w1 where "w1 = log_effect (DbInsert (seq w + 1))
                (w\<lparr>events := events w @ [new_row d (seq w + 1)], seq := seq w + 1\<rparr>)"
  have w1: "mongo_client w1" "count_list (trace w1) MongoConnect = count_list (trace w) MongoConnect"
    using assms by (simp_all add: w1_def)
  obtain b w2 where g: "send_event_to_mongo s e (mongo_event d) w1 = (b, w2)"
    by (cases "send_event_to_mongo s e (mongo_event d) w1")
  with send_keeps_client [OF w1(1), of s e "mongo_event d"] w1(2)
  have "mongo_client w2" "count_list (trace w2) MongoConnect = count_list (trace w) MongoConnect"
    by simp_all
  then show ?thesis
    using g by (simp add: insert_event_def Let_def w1_def [symmetric])
qed

lemma emit_keeps_client:
  "mongo_client w \<Longrightarrow> mongo_client (emit s e k p hb ha w) \<and>
     count_list (trace (emit s e k p hb ha w)) MongoConnect = count_list (trace w) MongoConnect"
  using insert_event_keeps_client [of w s e "event_of s e k p hb ha"]
  by (simp add: emit_def)

lemma emit_keeps_client_log:
  "mongo_client w \<Longrightarrow> x \<noteq> MongoConnect \<Longrightarrow> mongo_client (emit s e k p hb ha (log_effect x w)) \<and>
     count_list (trace (emit s e k p hb ha (log_effect x w))) MongoConnect =
       count_list (trace w) MongoConnect"
  using emit_keeps_client [of "log_effect x w" s e k p hb ha] by simp

lemma process_event_keeps_client:
  assumes "mongo_client w"
  shows "mongo_client (process_event s e k p d w) \<and>
     count_list (trace (process_event s e k p d w)) MongoConnect =
       count_list (trace w) MongoConnect"
proof -
  let ?path = "abspath s p"
  have 1: "mongo_client (log_effect x w)" for x using assms by simp
  have 2: "mongo_client (log_effect x (log_effect y w))" for x y using assms by simp
  have 3: "mongo_client (log_effect x (log_effect y (log_effect z w)))" for x y z using assms by simp
  show ?thesis
    using assms emit_keeps_client [OF assms, of s e]
      emit_keeps_client [OF 1, of s e] emit_keeps_client [OF 2, of s e]
      emit_keeps_client [OF 3, of s e]
    by (simp add: process_event_def get_latest_hash_def Let_def)
qed

lemma handle_keeps_client:
  assumes "mongo_client w"
  shows "mongo_client (handle s c w) \<and>
     count_list (trace (handle s c w)) MongoConnect = count_list (trace w) MongoConnect"
proof (cases c)
  case (OnMoved e1 e2 ev)
  have a: "mongo_client (process_event s e1 ''deleted'' (src_path ev) False w) \<and>
     count_list (trace (process_event s e1 ''deleted'' (src_path ev) False w)) MongoConnect =
       count_list (trace w) MongoConnect"
    using assms by (rule process_event_keeps_client)
  then have b: "mongo_client (process_event s e2 ''created'' (dest_path ev) False
        (process_event s e1 ''deleted'' (src_path ev) False w)) \<and>
     count_list (trace (process_event s e2 ''created'' (dest_path ev) False
        (process_event s e1 ''deleted'' (src_path ev) False w))) MongoConnect =
       count_list (trace w) MongoConnect"
    using process_event_keeps_client
      [of "process_event s e1 ''deleted'' (src_path ev) False w" s e2 "''created''" "dest_path ev" False]
    by simp
  show ?thesis
    using assms a b process_event_keeps_client [OF assms, of s e2 "''created''" "dest_path ev" False]
    by (simp add: OnMoved on_moved_def Let_def)
qed (use assms process_event_keeps_client [OF assms] in
      \<open>simp_all add: on_created_def on_modified_def on_deleted_def\<close>)

lemma run_keeps_client:
  "mongo_client w \<Longrightarrow> mongo_client (run s cs w) \<and>
     count_list (trace (run s cs w)) MongoConnect = count_list (trace w) MongoConnect"
proof (induction cs arbitrary: w)
  case Nil
  then show ?case by (simp add: run_def)
next
  case (Cons c cs)
  from handle_keeps_client [OF Cons.prems, of s c]
  have h: "mongo_client (handle s c w)"
    "count_list (trace (handle s c w)) MongoConnect = count_list (trace w) MongoConnect"
    by simp_all
  from Cons.IH [OF h(1)] h(2) show ?case by (simp add: run_def)
qed

text \<open>
  C6, as the specification states it, fails: with a URI configured and the remote store
  down, two notifications make two handshake attempts, one for each send. Both
  \<^verbatim>\<open>except\<close> branches of \<^verbatim>\<open>get_mongo_connection\<close> reset \<^verbatim>\<open>_mongo_client\<close> to \<^verbatim>\<open>None\<close>, so the
  next call connects again.
\<close>

theorem reconnects_after_failure_counterexample:
  "mongo_uri remote_sys = ''mongodb://fim.example'' \<and>
   \<not> connect_ok hello_env \<and> \<not> connect_ok world_env \<and>
   trace two_events_remote_down =
     [FsIsFile a_txt, FsHash a_txt, DbInsert 1, MongoConnect, Alert ''created'' a_txt,
      FsIsFile a_txt, DbSelect a_txt, FsHash a_txt, DbInsert 2, MongoConnect,
      Alert ''modified'' a_txt] \<and>
   count_list (trace two_events_remote_down) MongoConnect = 2"
  by code_simp

text \<open>
  C6, amended. The process starts without a connection and without any handshake made.
  Once a client is memoized, no run of notifications makes another handshake attempt and
  the client stays. Without a client, a call with a URI configured makes one handshake
  attempt; when it succeeds the client is memoized, and when it fails the send returns
  false after that one attempt and no client is memoized.
\<close>

theorem connection_memoized_only_on_success:
  "\<not> mongo_client init_world \<and> trace init_world = [] \<and>
   (mongo_client w \<longrightarrow>
      mongo_client (run s cs w) \<and>
      count_list (trace (run s cs w)) MongoConnect = count_list (trace w) MongoConnect) \<and>
   (mongo_uri s \<noteq> [] \<and> \<not> mongo_client w \<and> connect_ok e \<longrightarrow>
      mongo_client (snd (get_mongo_connection s e w)) \<and>
      trace (snd (get_mongo_connection s e w)) = trace w @ [MongoConnect]) \<and>
   (mongo_uri s \<noteq> [] \<and> \<not> mongo_client w \<and> \<not> connect_ok e \<longrightarrow>
      \<not> fst (send_event_to_mongo s e doc w) \<and>
      \<not> mongo_client (snd (send_event_to_mongo s e doc w)) \<and>
      trace (snd (send_event_to_mongo s e doc w)) = trace w @ [MongoConnect])"
proof -
  have a: "\<not> mongo_client init_world \<and> trace init_world = []"
    by (simp add: init_world_def)
  have b: "mongo_uri s \<noteq> [] \<and> \<not> mongo_client w \<and> connect_ok e \<longrightarrow>
      mongo_client (snd (get_mongo_connection s e w)) \<and>
      trace (snd (get_mongo_connection s e w)) = trace w @ [MongoConnect]"
    by (simp add: get_mongo_connection_def Let_def)
  have c: "mongo_uri s \<noteq> [] \<and> \<not> mongo_client w \<and> \<not> connect_ok e \<longrightarrow>
      \<not> fst (send_event_to_mongo s e doc w) \<and>
      \<not> mongo_client (snd (send_event_to_mongo s e doc w)) \<and>
      trace (snd (send_event_to_mongo s e doc w)) = trace w @ [MongoConnect]"
    by (simp add: send_event_to_mongo_def get_mongo_connection_def Let_def)
  from a b c run_keeps_client [of w s cs] show ?thesis by blast
qed

theorem connection_memoized_only_on_success_witness:
  "mongo_client connected \<and>
   count_list (trace (run remote_sys later_calls connected)) MongoConnect = 1 \<and>
   mongo_client (snd (get_mongo_connection remote_sys up_env init_world)) \<and>
   trace (snd (get_mongo_connection remote_sys up_env init_world)) = [MongoConnect] \<and>
   \<not> fst (send_event_to_mongo remote_sys hello_env
            (mongo_event (event_of remote_sys hello_env ''created'' a_txt None None)) init_world) \<and>
   trace (snd (send_event_to_mongo remote_sys hello_env
            (mongo_event (event_of remote_sys hello_env ''created'' a_txt None None)) init_world)) =
     [MongoConnect]"
proof -
  have a: "mongo_client connected" by code_simp
  have b: "count_list (trace connected) MongoConnect = 1" by code_simp
  have c: "mongo_uri remote_sys \<noteq> []" "connect_ok up_env" "\<not> connect_ok hello_env"
    by code_simp+
  have d: "\<not> mongo_client init_world" "trace init_world = []" by code_simp+
  show ?thesis
    using connection_memoized_only_on_success
        [of connected remote_sys later_calls up_env
            "mongo_event (event_of remote_sys hello_env ''created'' a_txt None None)"]
      connection_memoized_only_on_success
        [of init_world remote_sys later_calls up_env
            "mongo_event (event_of remote_sys hello_env ''created'' a_txt None None)"]
      connection_memoized_only_on_success
        [of init_world remote_sys later_calls hello_env
            "mongo_event (event_of remote_sys hello_env ''created'' a_txt None None)"]
      a b c d
    by simp
qed

section \<open>What every persisted event satisfies\<close>

lemma mark_synced_fresh: "\<forall>r \<in> set rows. row_id r \<noteq> i \<Longrightarrow> mark_synced i rows = rows"
  by (induction rows) (simp_all add: mark_synced_def)

lemma mark_synced_new_row:
  "mark_synced i [new_row d i] = [(new_row d i)\<lparr>synced_to_mongo := 1\<rparr>]"
  by (simp add: mark_synced_def)

lemma events_emit_fresh:
  assumes "ids_fresh w"
  shows "events (emit s e k p hb ha w) =
     events w @ [(new_row (event_of s e k p hb ha) (seq w + 1))
                   \<lparr>synced_to_mongo := (if send_succeeds s e w then 1 else 0)\<rparr>]"
proof -
  have "\<forall>r \<in> set (events w). row_id r \<noteq> seq w + 1"
    using assms by (auto simp: ids_fresh_def)
  then have "mark_synced (seq w + 1) (events w) = events w"
    by (rule mark_synced_fresh)
  moreover have "(new_row d i)\<lparr>synced_to_mongo := 0\<rparr> = new_row d i" for d i
    by (simp add: new_row_def)
  ultimately show ?thesis
    by (simp add: events_emit mark_synced_append mark_synced_new_row)
qed

lemma ids_fresh_log_effect [simp]: "ids_fresh (log_effect x w) = ids_fresh w"
  by (simp add: ids_fresh_def)

lemma ids_fresh_emit: "ids_fresh w \<Longrightarrow> ids_fresh (emit s e k p hb ha w)"
  unfolding ids_fresh_def
  by (simp add: events_emit_fresh ids_fresh_def seq_emit) force

lemma log_ok_snoc: "log_ok t (rows @ [r]) \<longleftrightarrow> log_ok t rows \<and> row_ok t rows r"
  by (auto simp: log_ok_def less_Suc_eq nth_append)

lemma row_ok_synced [simp]: "row_ok t before (r\<lparr>synced_to_mongo := x\<rparr>) = row_ok t before r"
  by (simp add: row_ok_def)

lemma row_ok_new_row:
  "row_ok t before (new_row (event_of s e k p hb ha) i) \<longleftrightarrow>
     (k = ''created'' \<longrightarrow> hb = None) \<and> (k = ''deleted'' \<longrightarrow> ha = None) \<and>
     (k = ''modified'' \<longrightarrow> hb \<noteq> ha) \<and> (k \<noteq> ''created'' \<longrightarrow> hb = latest_hash t before p)"
  by (simp add: row_ok_def event_of_def)

lemma no_state_columns_snoc:
  "no_state_columns (rows @ [r]) \<longleftrightarrow>
     no_state_columns rows \<and> state_hash r = None \<and> content_hash r = None"
  by (auto simp: no_state_columns_def)

lemma log_ok_emit:
  assumes "ids_fresh w" and "log_ok (tie s) (events w)"
    and "k = ''created'' \<longrightarrow> hb = None" and "k = ''deleted'' \<longrightarrow> ha = None"
    and "k = ''modified'' \<longrightarrow> hb \<noteq> ha"
    and "k \<noteq> ''created'' \<longrightarrow> hb = latest_hash (tie s) (events w) p"
  shows "log_ok (tie s) (events (emit s e k p hb ha w))"
  using assms by (simp add: events_emit_fresh log_ok_snoc row_ok_new_row)

lemma no_state_columns_emit:
  "ids_fresh w \<Longrightarrow> no_state_columns (events w) \<Longrightarrow>
     no_state_columns (events (emit s e k p hb ha w))"
  by (simp add: events_emit_fresh no_state_columns_snoc event_of_def)

lemma process_event_cases:
  "process_event s e k p d w = w \<or>
   process_event s e k p d w = log_effect (FsIsFile (abspath s p)) w \<or>
   (k = ''created'' \<and>
      process_event s e k p d w =
        emit s e k (abspath s p) None (compute_hash s (fs e) (abspath s p))
          (log_effect (FsHash (abspath s p)) (log_effect (FsIsFile (abspath s p)) w))) \<or>
   (k = ''modified'' \<and>
      latest_hash (tie s) (events w) (abspath s p) \<noteq> compute_hash s (fs e) (abspath s p) \<and>
      process_event s e k p d w =
        emit s e k (abspath s p) (latest_hash (tie s) (events w) (abspath s p))
          (compute_hash s (fs e) (abspath s p))
          (log_effect (FsHash (abspath s p)) (log_effect (DbSelect (abspath s p))
             (log_effect (FsIsFile (abspath s p)) w)))) \<or>
   (k = ''modified'' \<and>
      process_event s e k p d w =
        log_effect (FsHash (abspath s p)) (log_effect (DbSelect (abspath s p))
             (log_effect (FsIsFile (abspath s p)) w))) \<or>
   (k = ''deleted'' \<and>
      process_event s e k p d w =
        emit s e k (abspath s p) (latest_hash (tie s) (events w) (abspath s p)) None
          (log_effect (DbSelect (abspath s p)) w)) \<or>
   (k \<noteq> ''created'' \<and> k \<noteq> ''modified'' \<and> k \<noteq> ''deleted'' \<and>
      process_event s e k p d w = emit s e k (abspath s p) None None w)"
  by (simp add: process_event_def get_latest_hash_def Let_def)

lemma process_event_good:
  assumes "ids_fresh w" and "log_ok (tie s) (events w)" and "no_state_columns (events w)"
    and "k = ''created'' \<or> k = ''modified'' \<or> k = ''deleted''"
  shows "ids_fresh (process_event s e k p d w) \<and>
         log_ok (tie s) (events (process_event s e k p d w)) \<and>
         no_state_columns (events (process_event s e k p d w))"
proof -
  let ?path = "abspath s p"
  let ?w1 = "log_effect (FsHash ?path) (log_effect (FsIsFile ?path) w)"
  let ?w2 = "log_effect (FsHash ?path) (log_effect (DbSelect ?path) (log_effect (FsIsFile ?path) w))"
  let ?w3 = "log_effect (DbSelect ?path) w"
  have f: "ids_fresh ?w1" "ids_fresh ?w2" "ids_fresh ?w3" using assms(1) by simp_all
  have l: "log_ok (tie s) (events ?w1)" "log_ok (tie s) (events ?w2)" "log_ok (tie s) (events ?w3)"
    using assms(2) by simp_all
  have n: "no_state_columns (events ?w1)" "no_state_columns (events ?w2)"
    "no_state_columns (events ?w3)"
    using assms(3) by simp_all
  have c: "ids_fresh (emit s e ''created'' ?path None (compute_hash s (fs e) ?path) ?w1) \<and>
      log_ok (tie s) (events (emit s e ''created'' ?path None (compute_hash s (fs e) ?path) ?w1)) \<and>
      no_state_columns (events (emit s e ''created'' ?path None (compute_hash s (fs e) ?path) ?w1))"
    using f(1) l(1) n(1) by (simp add: ids_fresh_emit log_ok_emit no_state_columns_emit)
  have m: "latest_hash (tie s) (events w) ?path \<noteq> compute_hash s (fs e) ?path \<Longrightarrow>
      ids_fresh (emit s e ''modified'' ?path (latest_hash (tie s) (events w) ?path)
                   (compute_hash s (fs e) ?path) ?w2) \<and>
      log_ok (tie s) (events (emit s e ''modified'' ?path (latest_hash (tie s) (events w) ?path)
                   (compute_hash s (fs e) ?path) ?w2)) \<and>
      no_state_columns (events (emit s e ''modified'' ?path (latest_hash (tie s) (events w) ?path)
                   (compute_hash s (fs e) ?path) ?w2))"
    using f(2) l(2) n(2) by (simp add: ids_fresh_emit log_ok_emit no_state_columns_emit)
  have dl: "ids_fresh (emit s e ''deleted'' ?path (latest_hash (tie s) (events w) ?path) None ?w3) \<and>
      log_ok (tie s) (events (emit s e ''deleted'' ?path (latest_hash (tie s) (events w) ?path) None ?w3)) \<and>
      no_state_columns (events (emit s e ''deleted'' ?path (latest_hash (tie s) (events w) ?path) None ?w3))"
    using f(3) l(3) n(3) by (simp add: ids_fresh_emit log_ok_emit no_state_columns_emit)
  from process_event_cases [of s e k p d w] show ?thesis
    using assms c m dl by (elim disjE) auto
qed

lemma handle_good:
  assumes "ids_fresh w" and "log_ok (tie s) (events w)" and "no_state_columns (events w)"
  shows "ids_fresh (handle s c w) \<and> log_ok (tie s) (events (handle s c w)) \<and>
         no_state_columns (events (handle s c w))"
proof (cases c)
  case (OnCreated e ev)
  then show ?thesis using process_event_good [OF assms] by (simp add: on_created_def)
next
  case (OnModified e ev)
  then show ?thesis using process_event_good [OF assms] by (simp add: on_modified_def)
next
  case (OnDeleted e ev)
  then show ?thesis using process_event_good [OF assms] by (simp add: on_deleted_def)
next
  case (OnMoved e1 e2 ev)
  let ?w1 = "process_event s e1 ''deleted'' (src_path ev) False w"
  have a: "ids_fresh ?w1 \<and> log_ok (tie s) (events ?w1) \<and> no_state_columns (events ?w1)"
    using process_event_good [OF assms] by simp
  then have b: "ids_fresh (process_event s e2 ''created'' (dest_path ev) False ?w1) \<and>
      log_ok (tie s) (events (process_event s e2 ''created'' (dest_path ev) False ?w1)) \<and>
      no_state_columns (events (process_event s e2 ''created'' (dest_path ev) False ?w1))"
    using process_event_good [of ?w1 s "''created''" e2 "dest_path ev" False] by simp
  have c': "ids_fresh (process_event s e2 ''created'' (dest_path ev) False w) \<and>
      log_ok (tie s) (events (process_event s e2 ''created'' (dest_path ev) False w)) \<and>
      no_state_columns (events (process_event s e2 ''created'' (dest_path ev) False w))"
    using process_event_good [OF assms] by simp
  show ?thesis
    using assms a b c' by (simp add: OnMoved on_moved_def Let_def)
qed

lemma run_good:
  "ids_fresh w \<Longrightarrow> log_ok (tie s) (events w) \<Longrightarrow> no_state_columns (events w) \<Longrightarrow>
   ids_fresh (run s cs w) \<and> log_ok (tie s) (events (run s cs w)) \<and>
   no_state_columns (events (run s cs w))"
proof (induction cs arbitrary: w)
  case Nil
  then show ?case by (simp add: run_def)
next
  case (Cons c cs)
  from handle_good [OF Cons.prems, of c]
  have "ids_fresh (handle s c w)" "log_ok (tie s) (events (handle s c w))"
    "no_state_columns (events (handle s c w))" by simp_all
  from Cons.IH [OF this] show ?case by (simp add: run_def)
qed

lemma init_world_good:
  "ids_fresh init_world \<and> log_ok t (events init_world) \<and> no_state_columns (events init_world)"
  by (simp add: ids_fresh_def log_ok_def no_state_columns_def init_world_def)

lemma insert_event_keeps_earlier_rows:
  assumes "ids_fresh w"
  shows "take (length (events w)) (events (snd (insert_event s e d w))) = events w"
proof -
  have "\<forall>r \<in> set (events w). row_id r \<noteq> seq w + 1"
    using assms by (auto simp: ids_fresh_def)
  then have "mark_synced (seq w + 1) (events w) = events w"
    by (rule mark_synced_fresh)
  then show ?thesis
    by (simp add: events_insert_event mark_synced_append)
qed

lemma reachable_ids_fresh: "ids_fresh (run s cs init_world)"
  using run_good [of init_world s cs] init_world_good [of "tie s"] by simp

lemma delete_is_always_recorded:
  assumes "\<not> is_directory ev" and "\<not> is_temp_file (src_path ev)"
  shows "persisted (on_deleted s e ev w) =
     persisted w @ [(seq w + 1, event_of s e ''deleted'' (abspath s (src_path ev))
        (latest_hash (tie s) (events w) (abspath s (src_path ev))) None)]"
  using assms
  by (simp add: on_deleted_def process_event_def get_latest_hash_def persisted_emit Let_def)

text \<open>
  C4, as the specification states it, fails. A second create notification for a path
  (the file was deleted unseen and created again) appends a created event with a null
  \<^verbatim>\<open>hash_before\<close> after an event whose \<^verbatim>\<open>hash_after\<close> is a digest, so the chain is
  broken; and two delete notifications for a path the log does not know append two
  consecutive events that both go from null to null.
\<close>

theorem chain_broken_by_second_create_counterexample:
  "file_path (events created_twice ! 0) = a_txt \<and> file_path (events created_twice ! 1) = a_txt \<and>
   timestamp (events created_twice ! 0) < timestamp (events created_twice ! 1) \<and>
   hash_after (events created_twice ! 0) = Some (example_digest ''hello'') \<and>
   hash_before (events created_twice ! 1) = None \<and>
   \<not> spec_chained (spec_history (events created_twice) a_txt) \<and>
   \<not> spec_no_repeated_no_change (spec_history (events deleted_twice) a_txt) \<and>
   \<not> spec_event_invariant (events created_twice) \<and>
   \<not> spec_event_invariant (events deleted_twice)"
  by code_simp

text \<open>
  C4, amended. In the log written by any sequence of notifications from the empty log,
  every created event has a null \<^verbatim>\<open>hash_before\<close>, every deleted event a null
  \<^verbatim>\<open>hash_after\<close>, every modified event a \<^verbatim>\<open>hash_before\<close> different from its
  \<^verbatim>\<open>hash_after\<close>, and the \<^verbatim>\<open>hash_before\<close> of every modified or deleted event is what
  \<^verbatim>\<open>get_latest_hash\<close> returns for its path on the rows before it.
\<close>

theorem watcher_log_invariant:
  assumes "rows = events (run s cs init_world)" and "i < length rows"
  shows "(event_type (rows ! i) = ''created'' \<longrightarrow> hash_before (rows ! i) = None) \<and>
         (event_type (rows ! i) = ''deleted'' \<longrightarrow> hash_after (rows ! i) = None) \<and>
         (event_type (rows ! i) = ''modified'' \<longrightarrow> hash_before (rows ! i) \<noteq> hash_after (rows ! i)) \<and>
         (event_type (rows ! i) \<noteq> ''created'' \<longrightarrow>
            hash_before (rows ! i) = latest_hash (tie s) (take i rows) (file_path (rows ! i)))"
proof -
  have "log_ok (tie s) rows"
    using run_good [of init_world s cs] init_world_good [of "tie s"] assms(1) by simp
  with assms(2) have "row_ok (tie s) (take i rows) (rows ! i)"
    by (simp add: log_ok_def)
  then show ?thesis unfolding row_ok_def .
qed

theorem watcher_log_invariant_witness:
  "length (events (run local_sys create_delete_calls init_world)) = 2 \<and>
   event_type (events (run local_sys create_delete_calls init_world) ! 1) = ''deleted'' \<and>
   file_path (events (run local_sys create_delete_calls init_world) ! 1) = a_txt \<and>
   hash_after (events (run local_sys create_delete_calls init_world) ! 1) = None \<and>
   hash_before (events (run local_sys create_delete_calls init_world) ! 1) =
     latest_hash (tie local_sys) (take 1 (events (run local_sys create_delete_calls init_world))) a_txt"
proof -
  have a: "length (events (run local_sys create_delete_calls init_world)) = 2" by code_simp
  have b: "event_type (events (run local_sys create_delete_calls init_world) ! 1) = ''deleted''"
    by code_simp
  have c: "file_path (events (run local_sys create_delete_calls init_world) ! 1) = a_txt"
    by code_simp
  show ?thesis
    using watcher_log_invariant [OF refl, of 1 local_sys create_delete_calls] a b c
    by simp
qed

section \<open>What the hash columns hold\<close>

lemma hash_state_hello:
  "hash_state local_sys hello_env a_txt =
     Some \<lparr>fstate_path = a_txt, fstate_content_hash = example_digest ''hello'',
           fstate_metadata = Some \<lparr>meta_size = 5, meta_mtime = 1704103200,
                                   meta_ctime = 1704103200, meta_readonly = False\<rparr>,
           fstate_state_hash = example_digest (dumps (json_escape local_sys)
              (state_obj a_txt (example_digest ''hello'')
                 (Some \<lparr>meta_size = 5, meta_mtime = 1704103200,
                        meta_ctime = 1704103200, meta_readonly = False\<rparr>)))\<rparr>"
  by (simp add: hash_state_def hello_env_def env_at_def one_file_def a_txt_def local_sys_def
      exists_def isfile_def compute_hash_def get_file_metadata_def stat_of_def py_int_def Let_def)

lemma dumps_state_obj_hello:
  "dumps (json_escape local_sys) (state_obj a_txt (example_digest ''hello'')
      (Some \<lparr>meta_size = 5, meta_mtime = 1704103200, meta_ctime = 1704103200,
             meta_readonly = False\<rparr>)) =
   ''{'' @ [dq] @ ''content_hash'' @ [dq] @ '':'' @ [dq] @ ''sha256:hello'' @ [dq] @ '','' @
   [dq] @ ''metadata'' @ [dq] @ '':{'' @
     [dq] @ ''ctime'' @ [dq] @ '':1704103200,'' @ [dq] @ ''mtime'' @ [dq] @ '':1704103200,'' @
     [dq] @ ''readonly'' @ [dq] @ '':false,'' @ [dq] @ ''size'' @ [dq] @ '':5},'' @
   [dq] @ ''path'' @ [dq] @ '':'' @ [dq] @ ''/w/a.txt'' @ [dq] @ ''}''"
  by (simp add: state_obj_def meta_json_def a_txt_def example_digest_def py_str_int_def dec.simps
      local_sys_def)

text \<open>
  C5, as the specification states it, fails. After \<^verbatim>\<open>a.txt\<close> is created with the bytes
  \<^verbatim>\<open>hello\<close>, the one event has null \<^verbatim>\<open>state_hash\<close> and \<^verbatim>\<open>content_hash\<close> columns, and its
  \<^verbatim>\<open>hash_after\<close> is the digest of the raw bytes, which is not the state digest that
  \<^verbatim>\<open>hash_state\<close> computes from the path, the content digest and the metadata.
\<close>

theorem created_event_has_content_digest_counterexample:
  "event_type (hd (events created_hello)) = ''created'' \<and>
   state_hash (hd (events created_hello)) = None \<and>
   content_hash (hd (events created_hello)) = None \<and>
   hash_after (hd (events created_hello)) = Some (example_digest ''hello'') \<and>
   map_option fstate_state_hash (hash_state local_sys hello_env a_txt) =
     Some (example_digest (dumps (json_escape local_sys)
        (state_obj a_txt (example_digest ''hello'')
           (Some \<lparr>meta_size = 5, meta_mtime = 1704103200, meta_ctime = 1704103200,
                  meta_readonly = False\<rparr>)))) \<and>
   hash_after (hd (events created_hello)) \<noteq>
     map_option fstate_state_hash (hash_state local_sys hello_env a_txt)"
proof -
  have a: "event_type (hd (events created_hello)) = ''created''"
    "state_hash (hd (events created_hello)) = None"
    "content_hash (hd (events created_hello)) = None"
    "hash_after (hd (events created_hello)) = Some (example_digest ''hello'')"
    by code_simp+
  have "example_digest ''hello'' \<noteq> example_digest (dumps (json_escape local_sys)
        (state_obj a_txt (example_digest ''hello'')
           (Some \<lparr>meta_size = 5, meta_mtime = 1704103200, meta_ctime = 1704103200,
                  meta_readonly = False\<rparr>)))"
    unfolding dumps_state_obj_hello by (simp add: example_digest_def)
  with a show ?thesis by (simp add: hash_state_hello)
qed

text \<open>
  C5, amended. No event written by the watcher carries a \<^verbatim>\<open>state_hash\<close> or a
  \<^verbatim>\<open>content_hash\<close>; the replicated document has no \<^verbatim>\<open>state_hash\<close> either, and its
  \<^verbatim>\<open>content_hash\<close> is the event's \<^verbatim>\<open>hash_after\<close>. A create notification for an
  unfiltered readable regular file appends exactly one event, of type \<^verbatim>\<open>created\<close>, with a
  null \<^verbatim>\<open>hash_before\<close> and with \<^verbatim>\<open>hash_after\<close> the digest of the file's bytes.
\<close>

theorem events_carry_content_digest_only:
  "no_state_columns (events (run s cs init_world)) \<and>
   doc_state_hash (mongo_event (event_of s e k p hb ha)) = None \<and>
   (ha \<noteq> Some [] \<longrightarrow> doc_content_hash (mongo_event (event_of s e k p hb ha)) = ha) \<and>
   (\<not> is_directory ev \<and> \<not> is_temp_file (src_path ev) \<and>
    fs e (abspath s (src_path ev)) = Some (File (Some bytes)) \<longrightarrow>
      persisted (on_created s e ev w) =
        persisted w @ [(seq w + 1,
           \<lparr>event_type = ''created'', file_path = abspath s (src_path ev), timestamp = now e,
            endpoint = endpoint_name s, hostname = gethostname s, username = getuser s,
            hash_before = None, hash_after = Some (sha256_hexdigest s bytes),
            state_hash = None, content_hash = None\<rparr>)])"
proof -
  have a: "no_state_columns (events (run s cs init_world))"
    using run_good [of init_world s cs] init_world_good [of "tie s"] by simp
  have b: "doc_state_hash (mongo_event (event_of s e k p hb ha)) = None"
    by (simp add: mongo_event_def event_of_def)
  have c: "ha \<noteq> Some [] \<longrightarrow> doc_content_hash (mongo_event (event_of s e k p hb ha)) = ha"
    by (cases ha) (simp_all add: mongo_event_def event_of_def py_or_def)
  have d: "\<not> is_directory ev \<and> \<not> is_temp_file (src_path ev) \<and>
    fs e (abspath s (src_path ev)) = Some (File (Some bytes)) \<longrightarrow>
      persisted (on_created s e ev w) =
        persisted w @ [(seq w + 1,
           \<lparr>event_type = ''created'', file_path = abspath s (src_path ev), timestamp = now e,
            endpoint = endpoint_name s, hostname = gethostname s, username = getuser s,
            hash_before = None, hash_after = Some (sha256_hexdigest s bytes),
            state_hash = None, content_hash = None\<rparr>)]"
    by (simp add: on_created_def process_event_def Let_def isfile_def compute_hash_def
        exists_def persisted_emit event_of_def)
  from a b c d show ?thesis by blast
qed

theorem events_carry_content_digest_only_witness:
  "state_hash (hd (events (run local_sys create_delete_calls init_world))) = None \<and>
   content_hash (hd (events (run local_sys create_delete_calls init_world))) = None \<and>
   \<not> is_directory (file_event a_txt) \<and> \<not> is_temp_file (src_path (file_event a_txt)) \<and>
   fs hello_env (abspath local_sys (src_path (file_event a_txt))) = Some (File (Some ''hello'')) \<and>
   persisted (on_created local_sys hello_env (file_event a_txt) init_world) =
     [(1, \<lparr>event_type = ''created'', file_path = a_txt, timestamp = clock1,
            endpoint = ''replit_agent'', hostname = ''host'', username = ''user'',
            hash_before = None, hash_after = Some (example_digest ''hello''),
            state_hash = None, content_hash = None\<rparr>)]"
proof -
  have a: "events (run local_sys create_delete_calls init_world) \<noteq> []" by code_simp
  have h: "\<not> is_directory (file_event a_txt)" "\<not> is_temp_file (src_path (file_event a_txt))"
    "fs hello_env (abspath local_sys (src_path (file_event a_txt))) = Some (File (Some ''hello''))"
    by code_simp+
  have v: "abspath local_sys (src_path (file_event a_txt)) = a_txt" "now hello_env = clock1"
    "endpoint_name local_sys = ''replit_agent''" "gethostname local_sys = ''host''"
    "getuser local_sys = ''user''" "sha256_hexdigest local_sys ''hello'' = example_digest ''hello''"
    "seq init_world = 0" "persisted init_world = []"
    by code_simp+
  show ?thesis
    using events_carry_content_digest_only
        [of local_sys create_delete_calls hello_env "''created''" a_txt None None
            "file_event a_txt" "''hello''" init_world]
      a h
    by (simp add: no_state_columns_def v)
qed

section \<open>Determinism of the state fingerprint\<close>

lemma dumps_permuted:
  assumes "distinct (map fst kvs)" and "mset kvs' = mset kvs"
  shows "dumps esc (JObject kvs') = dumps esc (JObject kvs)"
proof -
  have "mset (map fst kvs') = mset (map fst kvs)"
    using assms(2) by (metis mset_map)
  then have "distinct (map fst kvs')"
    using assms(1) by (metis mset_eq_imp_distinct_iff)
  then have inj: "inj_on fst (set kvs')"
    by (simp add: distinct_map)
  have "sort_key fst kvs' = sort_key fst kvs"
    using inj by (intro sort_key_inj_key_eq) (simp_all add: assms(2))
  then show ?thesis by simp
qed

lemma hash_state_inputs:
  assumes "sha256_hexdigest s' = sha256_hexdigest s" and "json_escape s' = json_escape s"
    and "abspath s' p' = abspath s p" and "fs e' p' = fs e p" and "stat e' p' = stat e p"
    and "access_w_ok e' p' = access_w_ok e p"
  shows "hash_state s' e' p' = hash_state s e p"
proof -
  have c: "compute_hash s' (fs e') p' = compute_hash s (fs e) p"
    by (simp add: compute_hash_def exists_def isfile_def assms
        split: option.splits node.splits)
  have m: "get_file_metadata e' p' = get_file_metadata e p"
    by (simp add: get_file_metadata_def assms split: option.splits)
  have x: "exists (fs e') p' = exists (fs e) p" "isfile (fs e') p' = isfile (fs e) p"
    by (simp_all add: exists_def isfile_def assms)
  show ?thesis
    unfolding hash_state_def by (simp only: c m x assms)
qed

lemma hash_state_readable:
  assumes "fs e p = Some (File (Some bytes))"
  shows "map_option fstate_state_hash (hash_state s e p) =
     Some (sha256_hexdigest s (dumps (json_escape s)
        (state_obj (abspath s p) (sha256_hexdigest s bytes) (get_file_metadata e p))))"
  using assms
  by (simp add: hash_state_def exists_def isfile_def compute_hash_def Let_def)

text \<open>
  C9. \<^verbatim>\<open>hash_state\<close> depends only on its logical inputs: two calls (in any two runs, with
  the same digest and escaping functions) that see the same absolute path, the same file
  node, the same \<^verbatim>\<open>os.stat\<close> result and the same write access return the same result,
  whatever else differs. For a readable file the state digest is the digest of the
  serialization of path, content digest and metadata; and that serialization is
  canonical: the order in which the items of a dictionary were inserted does not change
  it, since the keys are sorted.
\<close>

theorem state_hash_deterministic:
  "(sha256_hexdigest s' = sha256_hexdigest s \<and> json_escape s' = json_escape s \<and>
    abspath s' p' = abspath s p \<and> fs e' p' = fs e p \<and> stat e' p' = stat e p \<and>
    access_w_ok e' p' = access_w_ok e p \<longrightarrow> hash_state s' e' p' = hash_state s e p) \<and>
   (fs e p = Some (File (Some bytes)) \<longrightarrow>
      map_option fstate_state_hash (hash_state s e p) =
        Some (sha256_hexdigest s (dumps (json_escape s)
          (state_obj (abspath s p) (sha256_hexdigest s bytes) (get_file_metadata e p))))) \<and>
   (distinct (map fst kvs) \<and> mset kvs' = mset kvs \<longrightarrow>
      dumps esc (JObject kvs') = dumps esc (JObject kvs))"
  using hash_state_inputs [of s' s p' p e' e] hash_state_readable [of e p bytes s]
    dumps_permuted [of kvs kvs' esc]
  by blast

theorem state_hash_deterministic_witness:
  "fs other_run_env a_txt = fs hello_env a_txt \<and>
   stat other_run_env a_txt = stat hello_env a_txt \<and>
   access_w_ok other_run_env a_txt = access_w_ok hello_env a_txt \<and>
   now other_run_env \<noteq> now hello_env \<and>
   hash_state local_sys other_run_env a_txt = hash_state local_sys hello_env a_txt \<and>
   fs hello_env a_txt = Some (File (Some ''hello'')) \<and>
   map_option fstate_state_hash (hash_state local_sys hello_env a_txt) =
     Some (sha256_hexdigest local_sys (dumps (json_escape local_sys)
        (state_obj (abspath local_sys a_txt) (sha256_hexdigest local_sys ''hello'')
           (get_file_metadata hello_env a_txt)))) \<and>
   distinct (map fst [(''path'', JString a_txt), (''metadata'', JBool True)]) \<and>
   dumps (json_escape local_sys) (JObject [(''metadata'', JBool True), (''path'', JString a_txt)]) =
   dumps (json_escape local_sys) (JObject [(''path'', JString a_txt), (''metadata'', JBool True)])"
proof -
  have a: "fs other_run_env a_txt = fs hello_env a_txt"
    "stat other_run_env a_txt = stat hello_env a_txt"
    "access_w_ok other_run_env a_txt = access_w_ok hello_env a_txt"
    by (simp_all add: other_run_env_def)
  have b: "now other_run_env \<noteq> now hello_env" by code_simp
  have c: "fs hello_env a_txt = Some (File (Some ''hello''))" by code_simp
  have d: "distinct (map fst [(''path'', JString a_txt), (''metadata'', JBool True)])" by simp
  have m: "mset [(''metadata'', JBool True), (''path'', JString a_txt)] =
           mset [(''path'', JString a_txt), (''metadata'', JBool True)]"
    by (simp add: add_mset_commute)
  show ?thesis
    using state_hash_deterministic
        [of local_sys local_sys a_txt a_txt other_run_env hello_env "''hello''"
            "[(''path'', JString a_txt), (''metadata'', JBool True)]"
            "[(''metadata'', JBool True), (''path'', JString a_txt)]" "json_escape local_sys"]
      a b c d m
    by simp
qed

end
